theory Spec2Isabelle
  imports Main "HOL-Library.List_Lexorder" "HOL-Library.Char_ord"
begin

section \<open>Errors, panics and observable events\<close>

text \<open>
  The Go code reports failures as \<open>error\<close> values built with \<open>fmt.Errorf\<close>. The
  model keeps one constructor per format string and stores the formatted arguments, so
  that two errors are equal exactly when the code would have formatted the same data.
  \<open>FlagError\<close> stands for an error produced by the flag parser, \<open>HookError\<close> for an
  error returned by a callback of the application.
\<close>

datatype error =
    UnknownCommand string string
  | RequiresAtLeast int int
  | AcceptsAtMost int int
  | AcceptsExactly int int
  | AcceptsBetween int int int
  | FlagError string
  | HookError string

text \<open>The ten callback slots of a command, and one event per callback invocation.\<close>

datatype slot =
    SlotPersistentPreRunE | SlotPersistentPreRun
  | SlotPreRunE | SlotPreRun
  | SlotRunE | SlotRun
  | SlotPostRunE | SlotPostRun
  | SlotPersistentPostRunE | SlotPersistentPostRun

datatype event = Call slot nat "string list"

text \<open>
  A panic stops the function where it stands: the result carries the state as the
  statements executed before the panic left it.
\<close>

datatype panic =
    ChildOfItself
  | FlagRedefined string string
  | ShorthandTooLong string
  | ShorthandRedefined string string

datatype ('a, 's) result = Done 'a | Panic panic 's

text \<open>An \<open>io.Writer\<close>: the two process streams, or a writer supplied by the application.\<close>

datatype writer = Stdout | Stderr | Writer nat

section \<open>Flags (the part of pflag the command tree relies on)\<close>

text \<open>
  A flag descriptor is shared by pointer between flag sets; \<open>FlagAddr\<close> is that pointer.
\<close>

record Flag =
  FlagAddr :: nat
  FlagName :: string
  Shorthand :: string
  DefValue :: string

text \<open>
  A flag set holds its flags in the order of their registration, whether they are
  visited in name order, and the positional arguments left by the last parse.
\<close>

record FlagSet =
  SetName :: string
  formal :: "Flag list"
  SortFlags :: bool
  parsed_args :: "string list"

section \<open>The command node\<close>

text \<open>
  The plain fields of \<open>Command\<close> come first; they are what a positional validator gets to
  read. Pointers to commands are addresses (\<open>nat\<close>), a nil pointer is \<open>None\<close>.
\<close>

record CommandFields =
  Use :: string
  Aliases :: "string list"
  Short :: string
  Long :: string
  SilenceErrors :: bool
  SilenceUsage :: bool
  DisableFlagParsing :: bool
  Hidden :: bool

type_synonym PositionalArgs = "CommandFields \<Rightarrow> string list \<Rightarrow> error option"

text \<open>
  A callback receives the address of the command and the arguments, and acts on the
  state \<open>'w\<close> of the application. A fallible callback also returns its error.
\<close>

type_synonym 'w hook = "nat \<Rightarrow> string list \<Rightarrow> 'w \<Rightarrow> 'w"
type_synonym 'w hookE = "nat \<Rightarrow> string list \<Rightarrow> 'w \<Rightarrow> error option \<times> 'w"

record 'w Command = CommandFields +
  Run :: "'w hook option"
  RunE :: "'w hookE option"
  PreRun :: "'w hook option"
  PreRunE :: "'w hookE option"
  PostRun :: "'w hook option"
  PostRunE :: "'w hookE option"
  PersistentPreRun :: "'w hook option"
  PersistentPreRunE :: "'w hookE option"
  PersistentPostRun :: "'w hook option"
  PersistentPostRunE :: "'w hookE option"
  Args :: "PositionalArgs option"
  commands :: "nat list"
  parent :: "nat option"
  flags :: "FlagSet option"
  pflags :: "FlagSet option"
  lflags :: "FlagSet option"
  outputW :: "writer option"
  errOutput :: "writer option"

section \<open>Standard validators for positional arguments\<close>

definition NoArgs :: PositionalArgs where
  "NoArgs cmd args =
     (if int (length args) > 0 then Some (UnknownCommand (args ! 0) (Use cmd)) else None)"

definition ArbitraryArgs :: PositionalArgs where
  "ArbitraryArgs cmd args = None"

definition MinimumNArgs :: "int \<Rightarrow> PositionalArgs" where
  "MinimumNArgs n = (\<lambda>cmd args.
     if int (length args) < n then Some (RequiresAtLeast n (int (length args))) else None)"

definition MaximumNArgs :: "int \<Rightarrow> PositionalArgs" where
  "MaximumNArgs n = (\<lambda>cmd args.
     if int (length args) > n then Some (AcceptsAtMost n (int (length args))) else None)"

definition ExactArgs :: "int \<Rightarrow> PositionalArgs" where
  "ExactArgs n = (\<lambda>cmd args.
     if int (length args) \<noteq> n then Some (AcceptsExactly n (int (length args))) else None)"

definition RangeArgs :: "int \<Rightarrow> int \<Rightarrow> PositionalArgs" where
  "RangeArgs lo hi = (\<lambda>cmd args.
     if int (length args) < lo \<or> int (length args) > hi
     then Some (AcceptsBetween lo hi (int (length args))) else None)"

section \<open>The command tree\<close>

text \<open>
  Commands live in a heap indexed by address. \<open>Command0 u\<close> is the Go literal
  \<open>&Command{Use: u}\<close>: every other field has its zero value.
\<close>

type_synonym 'w heap = "nat \<Rightarrow> 'w Command"

definition Command0 :: "string \<Rightarrow> 'w Command" where
  "Command0 u =
     \<lparr> Use = u, Aliases = [], Short = [], Long = [], SilenceErrors = False,
       SilenceUsage = False, DisableFlagParsing = False, Hidden = False,
       Run = None, RunE = None, PreRun = None, PreRunE = None, PostRun = None,
       PostRunE = None, PersistentPreRun = None, PersistentPreRunE = None,
       PersistentPostRun = None, PersistentPostRunE = None, Args = None,
       commands = [], parent = None, flags = None, pflags = None, lflags = None,
       outputW = None, errOutput = None \<rparr>"

text \<open>\<open>strings.Index\<close> for a one-byte separator: the first position of it, or \<open>-1\<close>.\<close>

fun Index :: "string \<Rightarrow> char \<Rightarrow> int" where
  "Index [] sep = - 1"
| "Index (x # xs) sep =
     (if x = sep then 0 else (let i = Index xs sep in if i < 0 then - 1 else i + 1))"

definition Name :: "'a CommandFields_scheme \<Rightarrow> string" where
  "Name c = (let name = Use c; i = Index name (CHR '' '')
             in if i \<ge> 0 then take (nat i) name else name)"

definition HasAlias :: "'a CommandFields_scheme \<Rightarrow> string \<Rightarrow> bool" where
  "HasAlias c s = list_ex (\<lambda>a. a = s) (Aliases c)"

text \<open>
  \<open>Find\<close> walks the tree along the tokens. Its error result is always nil in the code;
  the model keeps the component.
\<close>

fun Find :: "'w heap \<Rightarrow> nat \<Rightarrow> string list \<Rightarrow> nat \<times> string list \<times> error option" where
  "Find h c [] = (c, [], None)"
| "Find h c (a # as) =
     (case find (\<lambda>cmd. Name (h cmd) = a \<or> HasAlias (h cmd) a) (commands (h c)) of
        Some cmd \<Rightarrow> Find h cmd as
      | None \<Rightarrow> (c, a # as, None))"

fun AddCommand :: "'w heap \<Rightarrow> nat \<Rightarrow> nat list \<Rightarrow> ('w heap, 'w heap) result" where
  "AddCommand h c [] = Done h"
| "AddCommand h c (cmd # cmds) =
     (if cmd = c then Panic ChildOfItself h
      else (let h1 = h(cmd := (h cmd)\<lparr>parent := Some c\<rparr>);
                h2 = h1(c := (h1 c)\<lparr>commands := commands (h1 c) @ [cmd]\<rparr>)
            in AddCommand h2 c cmds))"

text \<open>
  The outer loop of \<open>RemoveCommand\<close> over the children, with the kept children
  accumulated; the inner loop over \<open>cmds\<close> is the membership test.
\<close>

fun remove_loop :: "'w heap \<Rightarrow> nat list \<Rightarrow> nat list \<Rightarrow> nat list \<Rightarrow> 'w heap \<times> nat list" where
  "remove_loop h [] cmds kept = (h, kept)"
| "remove_loop h (command # rest) cmds kept =
     (if list_ex (\<lambda>cmd. command = cmd) cmds
      then remove_loop (h(command := (h command)\<lparr>parent := None\<rparr>)) rest cmds kept
      else remove_loop h rest cmds (kept @ [command]))"

definition RemoveCommand :: "'w heap \<Rightarrow> nat \<Rightarrow> nat list \<Rightarrow> 'w heap" where
  "RemoveCommand h c cmds =
     (case remove_loop h (commands (h c)) cmds [] of
        (h1, kept) \<Rightarrow> h1(c := (h1 c)\<lparr>commands := kept\<rparr>))"

section \<open>Flag sets and their merging\<close>

text \<open>
  Modelled from the spec: the flag set operations \<open>NewFlagSet\<close>, \<open>Lookup\<close>,
  \<open>AddFlag\<close> and \<open>VisitAll\<close> belong to the flag library the repository imports, whose
  source is not part of it. A scope maps unique names, and unique one-character
  shorthands, to descriptors; lookup is by name; \<open>AddFlag\<close> refuses a name or a
  shorthand that is taken with a panic; \<open>VisitAll\<close> goes through the flags in name
  order unless sorting is switched off.
\<close>

definition NewFlagSet :: "string \<Rightarrow> FlagSet" where
  "NewFlagSet name = \<lparr> SetName = name, formal = [], SortFlags = True, parsed_args = [] \<rparr>"

definition Lookup :: "FlagSet \<Rightarrow> string \<Rightarrow> Flag option" where
  "Lookup fs name = find (\<lambda>f. FlagName f = name) (formal fs)"

definition AddFlag :: "FlagSet \<Rightarrow> Flag \<Rightarrow> (FlagSet, FlagSet) result" where
  "AddFlag fs flag =
     (if list_ex (\<lambda>f. FlagName f = FlagName flag) (formal fs)
      then Panic (FlagRedefined (SetName fs) (FlagName flag)) fs
      else (let fs1 = fs\<lparr>formal := formal fs @ [flag]\<rparr>
            in if Shorthand flag = [] then Done fs1
               else if length (Shorthand flag) > 1 then Panic (ShorthandTooLong (Shorthand flag)) fs1
               else if list_ex (\<lambda>f. Shorthand f = Shorthand flag) (formal fs)
               then Panic (ShorthandRedefined (Shorthand flag) (SetName fs)) fs1
               else Done fs1))"

definition VisitAll :: "FlagSet \<Rightarrow> Flag list" where
  "VisitAll fs = (if SortFlags fs then sort_key FlagName (formal fs) else formal fs)"

text \<open>
  The three accessors create the flag set on first use and store it in the command.
\<close>

definition Flags :: "'w heap \<Rightarrow> nat \<Rightarrow> 'w heap \<times> FlagSet" where
  "Flags h c =
     (case flags (h c) of
        None \<Rightarrow> (let fs = NewFlagSet (Name (h c)) in (h(c := (h c)\<lparr>flags := Some fs\<rparr>), fs))
      | Some fs \<Rightarrow> (h, fs))"

definition LocalFlags :: "'w heap \<Rightarrow> nat \<Rightarrow> 'w heap \<times> FlagSet" where
  "LocalFlags h c =
     (case lflags (h c) of
        None \<Rightarrow> (let fs = NewFlagSet (Name (h c)) in (h(c := (h c)\<lparr>lflags := Some fs\<rparr>), fs))
      | Some fs \<Rightarrow> (h, fs))"

definition PersistentFlags :: "'w heap \<Rightarrow> nat \<Rightarrow> 'w heap \<times> FlagSet" where
  "PersistentFlags h c =
     (case pflags (h c) of
        None \<Rightarrow> (let fs = NewFlagSet (Name (h c)) in (h(c := (h c)\<lparr>pflags := Some fs\<rparr>), fs))
      | Some fs \<Rightarrow> (h, fs))"

text \<open>
  The closure that \<open>mergePersistentFlags\<close> hands to \<open>VisitAll\<close>: the flag is added to
  the effective set of \<open>c\<close> unless a flag of that name is there already.
\<close>

definition merge_flag :: "'w heap \<Rightarrow> nat \<Rightarrow> Flag \<Rightarrow> ('w heap, 'w heap) result" where
  "merge_flag h c f =
     (case Flags h c of (h1, fs) \<Rightarrow>
        (case Lookup fs (FlagName f) of
           Some g \<Rightarrow> Done h1
         | None \<Rightarrow>
             (case AddFlag fs f of
                Done fs1 \<Rightarrow> Done (h1(c := (h1 c)\<lparr>flags := Some fs1\<rparr>))
              | Panic p fs1 \<Rightarrow> Panic p (h1(c := (h1 c)\<lparr>flags := Some fs1\<rparr>)))))"

fun merge_all :: "'w heap \<Rightarrow> nat \<Rightarrow> Flag list \<Rightarrow> ('w heap, 'w heap) result" where
  "merge_all h c [] = Done h"
| "merge_all h c (f # fs) =
     (case merge_flag h c f of
        Done h1 \<Rightarrow> merge_all h1 c fs
      | Panic p h1 \<Rightarrow> Panic p h1)"

text \<open>The second and third block of \<open>mergePersistentFlags\<close>: the node's own scopes.\<close>

definition merge_own :: "'w heap \<Rightarrow> nat \<Rightarrow> ('w heap, 'w heap) result" where
  "merge_own h c =
     (case PersistentFlags h c of (h1, pf) \<Rightarrow>
        (case merge_all h1 c (VisitAll pf) of
           Panic p h2 \<Rightarrow> Panic p h2
         | Done h2 \<Rightarrow> (case LocalFlags h2 c of (h3, lf) \<Rightarrow> merge_all h3 c (VisitAll lf))))"

text \<open>
  \<open>mergePersistentFlags\<close> recurses along the parent pointers, which the code does not
  keep acyclic; the fuel bounds the depth, and \<open>None\<close> stands for a recursion that
  does not come back within it.
\<close>

fun mergePersistentFlags :: "nat \<Rightarrow> 'w heap \<Rightarrow> nat \<Rightarrow> ('w heap, 'w heap) result option" where
  "mergePersistentFlags 0 h c = None"
| "mergePersistentFlags (Suc n) h c =
     (case (case parent (h c) of
              None \<Rightarrow> Some (Done h)
            | Some p \<Rightarrow>
                (case mergePersistentFlags n h p of
                   None \<Rightarrow> None
                 | Some (Panic e h1) \<Rightarrow> Some (Panic e h1)
                 | Some (Done h1) \<Rightarrow>
                     (case PersistentFlags h1 p of (h2, pf) \<Rightarrow>
                        Some (merge_all h2 c (VisitAll pf))))) of
        None \<Rightarrow> None
      | Some (Panic e h3) \<Rightarrow> Some (Panic e h3)
      | Some (Done h3) \<Rightarrow> Some (merge_own h3 c))"

text \<open>
  The parser itself is a parameter: it takes the effective flag set and the tokens and
  returns its error, if any, and the flag set with the values and the positional
  arguments it has stored.
\<close>

type_synonym parser = "FlagSet \<Rightarrow> string list \<Rightarrow> error option \<times> FlagSet"

definition ParseFlags ::
  "parser \<Rightarrow> nat \<Rightarrow> 'w heap \<Rightarrow> nat \<Rightarrow> string list \<Rightarrow> (error option \<times> 'w heap, 'w heap) result option" where
  "ParseFlags Parse fuel h c args =
     (case mergePersistentFlags fuel h c of
        None \<Rightarrow> None
      | Some (Panic p h1) \<Rightarrow> Some (Panic p h1)
      | Some (Done h1) \<Rightarrow>
          (case Flags h1 c of (h2, fs) \<Rightarrow>
             (case Parse fs args of (err, fs1) \<Rightarrow>
                Some (Done (err, h2(c := (h2 c)\<lparr>flags := Some fs1\<rparr>))))))"

section \<open>Streams\<close>

text \<open>
  What is written to a stream: a line with the text of an error, or the usage text of a
  command (the rendering of that text is left out).
\<close>

datatype text_out = ErrorLine error | UsageOf nat

fun OutOrStdout :: "nat \<Rightarrow> 'w heap \<Rightarrow> nat \<Rightarrow> writer option" where
  "OutOrStdout 0 h c = None"
| "OutOrStdout (Suc n) h c =
     (case outputW (h c) of
        Some w \<Rightarrow> Some w
      | None \<Rightarrow> (case parent (h c) of Some p \<Rightarrow> OutOrStdout n h p | None \<Rightarrow> Some Stdout))"

fun ErrOrStderr :: "nat \<Rightarrow> 'w heap \<Rightarrow> nat \<Rightarrow> writer option" where
  "ErrOrStderr 0 h c = None"
| "ErrOrStderr (Suc n) h c =
     (case errOutput (h c) of
        Some w \<Rightarrow> Some w
      | None \<Rightarrow> (case parent (h c) of Some p \<Rightarrow> ErrOrStderr n h p | None \<Rightarrow> Some Stderr))"

section \<open>Execution\<close>

text \<open>
  The state of an execution: the command heap, the state of the application, the
  callbacks invoked so far and what has been written to the streams.
\<close>

record 'w state =
  heap :: "'w heap"
  world :: 'w
  calls :: "event list"
  written :: "(writer \<times> text_out) list"

datatype 'w outcome = Returned "error option" "'w state" | Panicked panic "'w state"

definition Fprintln_err :: "nat \<Rightarrow> 'w state \<Rightarrow> nat \<Rightarrow> error \<Rightarrow> 'w state option" where
  "Fprintln_err fuel s c err =
     (case ErrOrStderr fuel (heap s) c of
        None \<Rightarrow> None
      | Some w \<Rightarrow> Some (s\<lparr>written := written s @ [(w, ErrorLine err)]\<rparr>))"

definition Usage :: "nat \<Rightarrow> 'w state \<Rightarrow> nat \<Rightarrow> 'w state option" where
  "Usage fuel s c =
     (case OutOrStdout fuel (heap s) c of
        None \<Rightarrow> None
      | Some w \<Rightarrow> Some (s\<lparr>written := written s @ [(w, UsageOf c)]\<rparr>))"

text \<open>
  The five stage functions share one shape: the fallible callback if it is set,
  otherwise the plain one if it is set, otherwise nothing.
\<close>

definition call_hooks ::
  "slot \<Rightarrow> slot \<Rightarrow> 'w hookE option \<Rightarrow> 'w hook option \<Rightarrow> 'w state \<Rightarrow> nat \<Rightarrow> string list
   \<Rightarrow> error option \<times> 'w state" where
  "call_hooks slotE slotP fE fP s c args =
     (case fE of
        Some f \<Rightarrow>
          (case f c args (world s) of (err, w) \<Rightarrow>
             (err, s\<lparr>world := w, calls := calls s @ [Call slotE c args]\<rparr>))
      | None \<Rightarrow>
          (case fP of
             Some g \<Rightarrow> (None, s\<lparr>world := g c args (world s), calls := calls s @ [Call slotP c args]\<rparr>)
           | None \<Rightarrow> (None, s)))"

definition executePersistentPreRun :: "'w state \<Rightarrow> nat \<Rightarrow> string list \<Rightarrow> error option \<times> 'w state" where
  "executePersistentPreRun s c args =
     call_hooks SlotPersistentPreRunE SlotPersistentPreRun
       (PersistentPreRunE (heap s c)) (PersistentPreRun (heap s c)) s c args"

definition executePreRun :: "'w state \<Rightarrow> nat \<Rightarrow> string list \<Rightarrow> error option \<times> 'w state" where
  "executePreRun s c args =
     call_hooks SlotPreRunE SlotPreRun (PreRunE (heap s c)) (PreRun (heap s c)) s c args"

definition executeRun :: "'w state \<Rightarrow> nat \<Rightarrow> string list \<Rightarrow> error option \<times> 'w state" where
  "executeRun s c args =
     call_hooks SlotRunE SlotRun (RunE (heap s c)) (Run (heap s c)) s c args"

definition executePostRun :: "'w state \<Rightarrow> nat \<Rightarrow> string list \<Rightarrow> error option \<times> 'w state" where
  "executePostRun s c args =
     call_hooks SlotPostRunE SlotPostRun (PostRunE (heap s c)) (PostRun (heap s c)) s c args"

definition executePersistentPostRun :: "'w state \<Rightarrow> nat \<Rightarrow> string list \<Rightarrow> error option \<times> 'w state" where
  "executePersistentPostRun s c args =
     call_hooks SlotPersistentPostRunE SlotPersistentPostRun
       (PersistentPostRunE (heap s c)) (PersistentPostRun (heap s c)) s c args"

text \<open>
  The first block of \<open>execute\<close>: with flag parsing enabled the flags are merged and
  parsed and the positional arguments of the flag set replace the tokens.
\<close>

definition execute_parse ::
  "parser \<Rightarrow> nat \<Rightarrow> 'w state \<Rightarrow> nat \<Rightarrow> string list
   \<Rightarrow> (error option \<times> 'w state \<times> string list, 'w state) result option" where
  "execute_parse Parse fuel s c args =
     (if \<not> DisableFlagParsing (heap s c)
      then (case ParseFlags Parse fuel (heap s) c args of
              None \<Rightarrow> None
            | Some (Panic p h1) \<Rightarrow> Some (Panic p (s\<lparr>heap := h1\<rparr>))
            | Some (Done (Some err, h1)) \<Rightarrow> Some (Done (Some err, s\<lparr>heap := h1\<rparr>, args))
            | Some (Done (None, h1)) \<Rightarrow>
                (case Flags h1 c of (h2, fs) \<Rightarrow>
                   Some (Done (None, s\<lparr>heap := h2\<rparr>, parsed_args fs))))
      else Some (Done (None, s, args)))"

text \<open>
  The last block of \<open>execute\<close>: the five stages on the resolved command \<open>cmd\<close>, and
  the report of a failing \<open>Run\<close> stage, which goes through the receiver \<open>c\<close>.
\<close>

definition execute_stages ::
  "nat \<Rightarrow> 'w state \<Rightarrow> nat \<Rightarrow> nat \<Rightarrow> string list \<Rightarrow> 'w outcome option" where
  "execute_stages fuel s c cmd fargs =
     (case executePersistentPreRun s cmd fargs of
        (Some err, s1) \<Rightarrow> Some (Returned (Some err) s1)
      | (None, s1) \<Rightarrow>
     (case executePreRun s1 cmd fargs of
        (Some err, s2) \<Rightarrow> Some (Returned (Some err) s2)
      | (None, s2) \<Rightarrow>
     (case executeRun s2 cmd fargs of
        (Some err, s3) \<Rightarrow>
          (case (if \<not> SilenceErrors (heap s3 c) then Fprintln_err fuel s3 c err else Some s3) of
             None \<Rightarrow> None
           | Some s4 \<Rightarrow>
               (case (if \<not> SilenceUsage (heap s4 c) then Usage fuel s4 c else Some s4) of
                  None \<Rightarrow> None
                | Some s5 \<Rightarrow> Some (Returned (Some err) s5)))
      | (None, s3) \<Rightarrow>
     (case executePostRun s3 cmd fargs of
        (Some err, s4) \<Rightarrow> Some (Returned (Some err) s4)
      | (None, s4) \<Rightarrow>
     (case executePersistentPostRun s4 cmd fargs of
        (Some err, s5) \<Rightarrow> Some (Returned (Some err) s5)
      | (None, s5) \<Rightarrow> Some (Returned None s5))))))"

definition execute :: "parser \<Rightarrow> nat \<Rightarrow> 'w state \<Rightarrow> nat \<Rightarrow> string list \<Rightarrow> 'w outcome option" where
  "execute Parse fuel s c args =
     (case execute_parse Parse fuel s c args of
        None \<Rightarrow> None
      | Some (Panic p s1) \<Rightarrow> Some (Panicked p s1)
      | Some (Done (Some err, s1, args1)) \<Rightarrow> Some (Returned (Some err) s1)
      | Some (Done (None, s1, args1)) \<Rightarrow>
          (case Find (heap s1) c args1 of (cmd, fargs, err) \<Rightarrow>
             (case err of
                Some e \<Rightarrow> Some (Returned (Some e) s1)
              | None \<Rightarrow>
                  (case (case Args (heap s1 cmd) of
                           None \<Rightarrow> None
                         | Some v \<Rightarrow> v (CommandFields.truncate (heap s1 cmd)) fargs) of
                     Some e \<Rightarrow> Some (Returned (Some e) s1)
                   | None \<Rightarrow> execute_stages fuel s1 c cmd fargs))))"

text \<open>
  The callback invocations a stage adds to the trace: one event for the callback that
  the stage selects, none when the slot is empty.
\<close>

definition stage_calls ::
  "slot \<Rightarrow> slot \<Rightarrow> 'a option \<Rightarrow> 'b option \<Rightarrow> nat \<Rightarrow> string list \<Rightarrow> event list" where
  "stage_calls slotE slotP fE fP c args =
     (case fE of
        Some f \<Rightarrow> [Call slotE c args]
      | None \<Rightarrow> (case fP of Some g \<Rightarrow> [Call slotP c args] | None \<Rightarrow> []))"

definition init_state :: "'w heap \<Rightarrow> 'w \<Rightarrow> 'w state" where
  "init_state h w = \<lparr> heap = h, world = w, calls = [], written = [] \<rparr>"

text \<open>
  The ownership invariant of the tree: a child's back-reference names the node that
  lists it, no child list repeats a node, and a back-reference is matched by an entry
  in the child list it names.
\<close>

definition single_parent :: "'w heap \<Rightarrow> bool" where
  "single_parent h =
     ((\<forall>p x. x \<in> set (commands (h p)) \<longrightarrow> parent (h x) = Some p)
      \<and> (\<forall>p. distinct (commands (h p)))
      \<and> (\<forall>x p. parent (h x) = Some p \<longrightarrow> x \<in> set (commands (h p))))"

section \<open>Example trees\<close>

text \<open>
  The application state of the examples is a log of strings, as in the repository's
  tests, where callbacks append to a slice. \<open>fresh_heap\<close> holds unattached commands
  only; \<open>tree_heap\<close> is a root with the children \<open>sub\<close> and \<open>list\<close>.
\<close>

definition fresh_heap :: "string list heap" where
  "fresh_heap = (\<lambda>_. Command0 [])"

definition tree_heap :: "string list heap" where
  "tree_heap = fresh_heap
     (0 := (Command0 ''root'')\<lparr>commands := [1, 2]\<rparr>,
      1 := (Command0 ''sub'')\<lparr>parent := Some 0\<rparr>,
      2 := (Command0 ''list [flags]'')\<lparr>Aliases := [''ls'', ''l''], parent := Some 0\<rparr>)"

text \<open>
  A parser for the examples, in the manner of the flag library but reduced to flags
  without values: a registered \<open>--name\<close> or \<open>-x\<close> is consumed, an unregistered one is
  an error, \<open>--\<close> ends the flags, every other token is positional.
\<close>

fun parse_tokens :: "Flag list \<Rightarrow> string list \<Rightarrow> string list \<Rightarrow> error option \<times> string list" where
  "parse_tokens fl [] pos = (None, pos)"
| "parse_tokens fl (a # as) pos =
     (if a = ''--'' then (None, pos @ as)
      else if take 2 a = ''--'' then
        (if list_ex (\<lambda>f. FlagName f = drop 2 a) fl then parse_tokens fl as pos
         else (Some (FlagError a), pos))
      else if take 1 a = ''-'' \<and> length a > 1 then
        (if list_ex (\<lambda>f. Shorthand f = drop 1 a) fl then parse_tokens fl as pos
         else (Some (FlagError a), pos))
      else parse_tokens fl as (pos @ [a]))"

definition sample_Parse :: parser where
  "sample_Parse fs args =
     (case parse_tokens (formal fs) args [] of (err, pos) \<Rightarrow> (err, fs\<lparr>parsed_args := pos\<rparr>))"

text \<open>Callbacks that append a tag to the log; the fallible one returns a fixed result.\<close>

definition log_hook :: "string \<Rightarrow> string list hook" where
  "log_hook tag = (\<lambda>c args w. w @ [tag])"

definition log_hookE :: "string \<Rightarrow> error option \<Rightarrow> string list hookE" where
  "log_hookE tag r = (\<lambda>c args w. (r, w @ [tag]))"

text \<open>
  \<open>greet_heap\<close>: a root with the child \<open>greet\<close>, which takes no positional argument
  and has a callback in every stage; the results of the three fallible ones are
  parameters.
\<close>

definition greet_heap :: "error option \<Rightarrow> error option \<Rightarrow> error option \<Rightarrow> string list heap" where
  "greet_heap r1 r2 r3 = fresh_heap
     (0 := (Command0 ''root'')\<lparr>commands := [1]\<rparr>,
      1 := (Command0 ''greet'')\<lparr>parent := Some 0, Args := Some (ExactArgs 0),
             PersistentPreRunE := Some (log_hookE ''persistent-pre'' r1),
             PreRunE := Some (log_hookE ''pre'' r2),
             RunE := Some (log_hookE ''run'' r3),
             PostRun := Some (log_hook ''post''),
             PersistentPostRun := Some (log_hook ''persistent-post'')\<rparr>)"

text \<open>\<open>norun_heap\<close>: a single command with hooks around a missing \<open>Run\<close>.\<close>

definition norun_heap :: "string list heap" where
  "norun_heap = fresh_heap
     (0 := (Command0 ''test'')\<lparr>PreRun := Some (log_hook ''pre''),
             PostRun := Some (log_hook ''post'')\<rparr>)"

text \<open>
  \<open>silent_heap\<close>: a root with default settings and the child \<open>sub\<close>, which silences
  errors and usage, has streams of its own, and whose \<open>RunE\<close> fails.
\<close>

definition silent_heap :: "string list heap" where
  "silent_heap = fresh_heap
     (0 := (Command0 ''root'')\<lparr>commands := [1]\<rparr>,
      1 := (Command0 ''sub'')\<lparr>parent := Some 0, SilenceErrors := True, SilenceUsage := True,
             outputW := Some (Writer 1), errOutput := Some (Writer 2),
             RunE := Some (log_hookE ''run'' (Some (HookError ''test error'')))\<rparr>)"

text \<open>
  \<open>help_heap\<close>: a command that expects one positional argument and has a registered
  help flag, as the repository's test of the help flag registers it.
\<close>

definition help_heap :: "string list heap" where
  "help_heap = fresh_heap
     (0 := (Command0 ''test'')\<lparr>Args := Some (ExactArgs 1),
             Run := Some (log_hook ''run''),
             flags := Some ((NewFlagSet ''test'')\<lparr>formal :=
               [\<lparr>FlagAddr = 0, FlagName = ''help'', Shorthand = ''h'', DefValue = ''false''\<rparr>]\<rparr>)\<rparr>)"

section \<open>Auxiliary notions for the flag properties\<close>







section \<open>Properties of the validators\<close>

text \<open>
  C6. Built-in validator semantics: \<open>ExactArgs n\<close> returns an error iff the number of
  arguments differs from \<open>n\<close>, \<open>MinimumNArgs n\<close> iff it is below \<open>n\<close>,
  \<open>MaximumNArgs n\<close> iff it is above \<open>n\<close>, \<open>RangeArgs min max\<close> iff it is below
  \<open>min\<close> or above \<open>max\<close>, \<open>NoArgs\<close> iff there is at least one argument, and
  \<open>ArbitraryArgs\<close> never returns an error. A validator is a function from the node's
  fields and the argument list to an optional error: it has no other result, so neither
  the node nor the argument list is changed by it.
\<close>

theorem builtin_validators_semantics:
  "(\<exists>e. ExactArgs n cmd args = Some e) = (int (length args) \<noteq> n)
   \<and> (\<exists>e. MinimumNArgs n cmd args = Some e) = (int (length args) < n)
   \<and> (\<exists>e. MaximumNArgs n cmd args = Some e) = (int (length args) > n)
   \<and> (\<exists>e. RangeArgs lo hi cmd args = Some e) = (int (length args) < lo \<or> int (length args) > hi)
   \<and> (\<exists>e. NoArgs cmd args = Some e) = (length args > 0)
   \<and> ArbitraryArgs cmd args = None"
  by (simp add: ExactArgs_def MinimumNArgs_def MaximumNArgs_def RangeArgs_def NoArgs_def
      ArbitraryArgs_def)

section \<open>Properties of the resolver\<close>

lemma find_first_match:
  "(\<forall>x\<in>set pre. \<not> P x) \<Longrightarrow> P k \<Longrightarrow> find P (pre @ k # post) = Some k"
  by (induction pre) auto

text \<open>
  C5. Resolver contract: on the empty token list \<open>Find\<close> returns the node it was called
  on with an empty remainder; on a non-empty list whose first token is the name or an
  alias of a child, it continues in the first such child (in registration order) with
  the rest of the tokens; when no child matches, it returns the current node and the
  whole token list, whatever the first token looks like.
\<close>

theorem Find_contract:
  "Find h c [] = (c, [], None)
   \<and> (commands (h c) = pre @ k # post
        \<and> (\<forall>x\<in>set pre. \<not> (Name (h x) = a \<or> HasAlias (h x) a))
        \<and> (Name (h k) = a \<or> HasAlias (h k) a)
      \<longrightarrow> Find h c (a # as) = Find h k as)
   \<and> ((\<forall>x\<in>set (commands (h c)). \<not> (Name (h x) = a \<or> HasAlias (h x) a))
      \<longrightarrow> Find h c (a # as) = (c, a # as, None))"
proof (intro conjI impI)
  show "Find h c [] = (c, [], None)" by simp
next
  assume A: "commands (h c) = pre @ k # post
        \<and> (\<forall>x\<in>set pre. \<not> (Name (h x) = a \<or> HasAlias (h x) a))
        \<and> (Name (h k) = a \<or> HasAlias (h k) a)"
  then have "find (\<lambda>cmd. Name (h cmd) = a \<or> HasAlias (h cmd) a) (commands (h c)) = Some k"
    by (simp add: find_first_match)
  then show "Find h c (a # as) = Find h k as" by simp
next
  assume "\<forall>x\<in>set (commands (h c)). \<not> (Name (h x) = a \<or> HasAlias (h x) a)"
  then have "find (\<lambda>cmd. Name (h cmd) = a \<or> HasAlias (h cmd) a) (commands (h c)) = None"
    by (simp add: find_None_iff)
  then show "Find h c (a # as) = (c, a # as, None)" by simp
qed

theorem Find_contract_witness:
  "Find tree_heap 0 [] = (0, [], None)
   \<and> Find tree_heap 0 [''ls'', ''-v'', ''x''] = (2, [''-v'', ''x''], None)
   \<and> Find tree_heap 0 [''-v'', ''sub''] = (0, [''-v'', ''sub''], None)"
  using Find_contract [of tree_heap 0 "[1]" 2 "[]" "''ls''" "[''-v'', ''x'']"]
    Find_contract [of tree_heap 2 "[]" 0 "[]" "''-v''" "[''x'']"]
    Find_contract [of tree_heap 0 "[]" 0 "[]" "''-v''" "[''sub'']"]
  by (simp add: tree_heap_def fresh_heap_def Command0_def Name_def HasAlias_def)

section \<open>Properties of tree construction\<close>

text \<open>
  C8. Self-parenting faults: when the receiver is among the arguments, \<open>AddCommand\<close>
  panics. At the panic the receiver's child list holds, beyond what it held before,
  only the arguments that precede the receiver, so the receiver was not appended to
  its own child list, and its back-reference is untouched.
\<close>

theorem AddCommand_self_panics:
  "c \<in> set cmds \<Longrightarrow>
   \<exists>h'. AddCommand h c cmds = Panic ChildOfItself h'
        \<and> commands (h' c) = commands (h c) @ takeWhile (\<lambda>x. x \<noteq> c) cmds
        \<and> parent (h' c) = parent (h c)"
proof (induction cmds arbitrary: h)
  case Nil
  then show ?case by simp
next
  case (Cons cmd cmds)
  show ?case
  proof (cases "cmd = c")
    case True
    then show ?thesis by simp
  next
    case False
    let ?h2 = "(h(cmd := (h cmd)\<lparr>parent := Some c\<rparr>))(c := (h c)\<lparr>commands := commands (h c) @ [cmd]\<rparr>)"
    from False Cons.prems have "c \<in> set cmds" by simp
    from Cons.IH [OF this, of ?h2] obtain h' where
      H: "AddCommand ?h2 c cmds = Panic ChildOfItself h'"
         "commands (h' c) = commands (?h2 c) @ takeWhile (\<lambda>x. x \<noteq> c) cmds"
         "parent (h' c) = parent (?h2 c)"
      by blast
    have "AddCommand h c (cmd # cmds) = Panic ChildOfItself h'"
      using H(1) False by (simp add: Let_def)
    moreover have "commands (h' c) = commands (h c) @ takeWhile (\<lambda>x. x \<noteq> c) (cmd # cmds)"
      using H(2) False by simp
    moreover have "parent (h' c) = parent (h c)" using H(3) by simp
    ultimately show ?thesis by blast
  qed
qed

theorem AddCommand_self_panics_witness:
  "\<exists>h'. AddCommand fresh_heap 0 [3, 0, 4] = Panic ChildOfItself h'
        \<and> commands (h' 0) = [3] \<and> parent (h' 0) = None"
  using AddCommand_self_panics [of 0 "[3, 0, 4]" fresh_heap]
  by (simp add: fresh_heap_def Command0_def)

lemma AddCommand_effect:
  "c \<notin> set cmds \<Longrightarrow>
   \<exists>h'. AddCommand h c cmds = Done h'
        \<and> commands (h' c) = commands (h c) @ cmds
        \<and> parent (h' c) = parent (h c)
        \<and> (\<forall>x\<in>set cmds. parent (h' x) = Some c \<and> commands (h' x) = commands (h x))
        \<and> (\<forall>y. y \<noteq> c \<and> y \<notin> set cmds \<longrightarrow> h' y = h y)"
proof (induction cmds arbitrary: h)
  case Nil
  then show ?case by simp
next
  case (Cons cmd cmds)
  let ?h2 = "(h(cmd := (h cmd)\<lparr>parent := Some c\<rparr>))(c := (h c)\<lparr>commands := commands (h c) @ [cmd]\<rparr>)"
  from Cons.prems have ne: "cmd \<noteq> c" and nin: "c \<notin> set cmds" by auto
  from Cons.IH [OF nin, of ?h2] obtain h' where
    H: "AddCommand ?h2 c cmds = Done h'"
       "commands (h' c) = commands (?h2 c) @ cmds"
       "parent (h' c) = parent (?h2 c)"
       "\<forall>x\<in>set cmds. parent (h' x) = Some c \<and> commands (h' x) = commands (?h2 x)"
       "\<forall>y. y \<noteq> c \<and> y \<notin> set cmds \<longrightarrow> h' y = ?h2 y"
    by blast
  have "AddCommand h c (cmd # cmds) = Done h'" using H(1) ne by (simp add: Let_def)
  moreover have "commands (h' c) = commands (h c) @ cmd # cmds" using H(2) ne by simp
  moreover have "parent (h' c) = parent (h c)" using H(3) ne by simp
  moreover have "\<forall>x\<in>set (cmd # cmds). parent (h' x) = Some c \<and> commands (h' x) = commands (h x)"
  proof
    fix x assume x: "x \<in> set (cmd # cmds)"
    show "parent (h' x) = Some c \<and> commands (h' x) = commands (h x)"
    proof (cases "x \<in> set cmds")
      case True
      then show ?thesis using H(4) ne nin by (cases "x = cmd") auto
    next
      case False
      with x have "x = cmd" by simp
      then show ?thesis using H(5) False ne by simp
    qed
  qed
  moreover have "\<forall>y. y \<noteq> c \<and> y \<notin> set (cmd # cmds) \<longrightarrow> h' y = h y"
    using H(5) by simp
  ultimately show ?case by blast
qed

lemma remove_loop_effect:
  "remove_loop h cs cmds kept = (h1, kept1) \<Longrightarrow>
   kept1 = kept @ filter (\<lambda>x. x \<notin> set cmds) cs
   \<and> (\<forall>x. h1 x = (if x \<in> set cs \<and> x \<in> set cmds then (h x)\<lparr>parent := None\<rparr> else h x))"
proof (induction h cs cmds kept arbitrary: h1 kept1 rule: remove_loop.induct)
  case (1 h cmds kept)
  then show ?case by simp
next
  case (2 h command rest cmds kept)
  show ?case
  proof (cases "command \<in> set cmds")
    case True
    then have "remove_loop (h(command := (h command)\<lparr>parent := None\<rparr>)) rest cmds kept = (h1, kept1)"
      using "2.prems" by (simp add: list_ex_iff)
    from "2.IH"(1) [OF _ this] True show ?thesis by (auto simp: list_ex_iff)
  next
    case False
    then have "remove_loop h rest cmds (kept @ [command]) = (h1, kept1)"
      using "2.prems" by (simp add: list_ex_iff)
    from "2.IH"(2) [OF _ this] False show ?thesis by (auto simp: list_ex_iff)
  qed
qed

lemma AddCommand_summary:
  assumes "c \<notin> set cmds"
  shows "\<exists>h'. AddCommand h c cmds = Done h'
        \<and> (\<forall>p. commands (h' p) = (if p = c then commands (h c) @ cmds else commands (h p)))
        \<and> (\<forall>x. parent (h' x) = (if x \<in> set cmds then Some c else parent (h x)))"
proof -
  from AddCommand_effect [OF assms, of h] obtain h' where
    H: "AddCommand h c cmds = Done h'"
       "commands (h' c) = commands (h c) @ cmds"
       "parent (h' c) = parent (h c)"
       "\<forall>x\<in>set cmds. parent (h' x) = Some c \<and> commands (h' x) = commands (h x)"
       "\<forall>y. y \<noteq> c \<and> y \<notin> set cmds \<longrightarrow> h' y = h y"
    by blast
  have "\<forall>p. commands (h' p) = (if p = c then commands (h c) @ cmds else commands (h p))"
    using H(2,4,5) by metis
  moreover have "\<forall>x. parent (h' x) = (if x \<in> set cmds then Some c else parent (h x))"
    using H(3,4,5) assms by metis
  ultimately show ?thesis using H(1) by blast
qed

lemma RemoveCommand_summary:
  "(\<forall>p. commands (RemoveCommand h c cmds p) =
        (if p = c then filter (\<lambda>x. x \<notin> set cmds) (commands (h c)) else commands (h p)))
   \<and> (\<forall>x. parent (RemoveCommand h c cmds x) =
        (if x \<in> set (commands (h c)) \<and> x \<in> set cmds then None else parent (h x)))"
proof -
  obtain h1 kept1 where R: "remove_loop h (commands (h c)) cmds [] = (h1, kept1)"
    by (cases "remove_loop h (commands (h c)) cmds []") auto
  from remove_loop_effect [OF R] have
    K: "kept1 = filter (\<lambda>x. x \<notin> set cmds) (commands (h c))" and
    H: "\<And>x. h1 x = (if x \<in> set (commands (h c)) \<and> x \<in> set cmds
                       then (h x)\<lparr>parent := None\<rparr> else h x)"
    by simp_all
  have E: "RemoveCommand h c cmds = h1(c := (h1 c)\<lparr>commands := kept1\<rparr>)"
    by (simp add: RemoveCommand_def R)
  show ?thesis unfolding E by (auto simp: K H)
qed


lemma AddCommand_single_parent:
  assumes inv: "single_parent h" and d: "distinct cmds" and nin: "c \<notin> set cmds"
    and det: "\<forall>x\<in>set cmds. parent (h x) = None"
  shows "\<exists>h'. AddCommand h c cmds = Done h' \<and> single_parent h'"
proof -
  from AddCommand_summary [OF nin, of h] obtain h' where
    H: "AddCommand h c cmds = Done h'"
       "\<And>p. commands (h' p) = (if p = c then commands (h c) @ cmds else commands (h p))"
       "\<And>x. parent (h' x) = (if x \<in> set cmds then Some c else parent (h x))"
    by blast
  have I1: "\<And>p x. x \<in> set (commands (h p)) \<Longrightarrow> parent (h x) = Some p"
    and I2: "\<And>p. distinct (commands (h p))"
    and I3: "\<And>x p. parent (h x) = Some p \<Longrightarrow> x \<in> set (commands (h p))"
    using inv unfolding single_parent_def by blast+
  have nc: "\<And>x p. x \<in> set (commands (h p)) \<Longrightarrow> x \<notin> set cmds"
    using I1 det by fastforce
  have "\<forall>p x. x \<in> set (commands (h' p)) \<longrightarrow> parent (h' x) = Some p"
    using H(2,3) I1 nc by (auto split: if_splits)
  moreover have "\<forall>p. distinct (commands (h' p))"
    using H(2) I2 d nc by auto
  moreover have "\<forall>x p. parent (h' x) = Some p \<longrightarrow> x \<in> set (commands (h' p))"
    using H(2,3) I3 by (auto split: if_splits)
  ultimately have "single_parent h'" unfolding single_parent_def by blast
  with H(1) show ?thesis by blast
qed

lemma RemoveCommand_single_parent:
  assumes inv: "single_parent h"
  shows "single_parent (RemoveCommand h c cmds)"
proof -
  let ?h' = "RemoveCommand h c cmds"
  have C: "\<And>p. commands (?h' p) =
        (if p = c then filter (\<lambda>x. x \<notin> set cmds) (commands (h c)) else commands (h p))"
    and P: "\<And>x. parent (?h' x) =
        (if x \<in> set (commands (h c)) \<and> x \<in> set cmds then None else parent (h x))"
    using RemoveCommand_summary [of h c cmds] by blast+
  have I1: "\<And>p x. x \<in> set (commands (h p)) \<Longrightarrow> parent (h x) = Some p"
    and I2: "\<And>p. distinct (commands (h p))"
    and I3: "\<And>x p. parent (h x) = Some p \<Longrightarrow> x \<in> set (commands (h p))"
    using inv unfolding single_parent_def by blast+
  have G1: "parent (?h' x) = Some p" if X: "x \<in> set (commands (?h' p))" for p x
  proof -
    have xin: "x \<in> set (commands (h p))" and xc: "p = c \<Longrightarrow> x \<notin> set cmds"
      using X by (simp_all add: C split: if_splits)
    have px: "parent (h x) = Some p" using xin by (rule I1)
    have "\<not> (x \<in> set (commands (h c)) \<and> x \<in> set cmds)"
    proof
      assume B: "x \<in> set (commands (h c)) \<and> x \<in> set cmds"
      then have "parent (h x) = Some c" using I1 by blast
      with px have "p = c" by simp
      with xc B show False by blast
    qed
    then show ?thesis using px by (simp add: P)
  qed
  have G2: "distinct (commands (?h' p))" for p
    using I2 by (simp add: C)
  have G3: "x \<in> set (commands (?h' p))" if X: "parent (?h' x) = Some p" for x p
  proof -
    have nr: "\<not> (x \<in> set (commands (h c)) \<and> x \<in> set cmds)" and px: "parent (h x) = Some p"
      using X by (simp_all add: P split: if_splits)
    have xin: "x \<in> set (commands (h p))" using px by (rule I3)
    show ?thesis
    proof (cases "p = c")
      case True
      with xin nr show ?thesis by (simp add: C)
    next
      case False
      with xin show ?thesis by (simp add: C)
    qed
  qed
  show ?thesis unfolding single_parent_def using G1 G2 G3 by blast
qed

lemma fresh_single_parent: "single_parent fresh_heap"
  by (simp add: single_parent_def fresh_heap_def Command0_def)



lemma tree_commands: "commands (tree_heap p) = (if p = 0 then [1, 2] else [])"
  by (simp add: tree_heap_def fresh_heap_def Command0_def)

lemma tree_parent: "parent (tree_heap x) = (if x = 1 \<or> x = 2 then Some 0 else None)"
  by (simp add: tree_heap_def fresh_heap_def Command0_def)

lemma tree_single_parent: "single_parent tree_heap"
  unfolding single_parent_def tree_commands tree_parent by auto

text \<open>
  C9 (as amended). \<open>AddCommand\<close> sets the back-reference of every added node to the
  receiver and appends the nodes to the receiver's child list; \<open>RemoveCommand\<close> drops
  the listed children by identity and clears their back-reference. Neither checks
  whether an added node already has a parent. The ownership invariant is therefore
  kept by \<open>AddCommand\<close> when the added nodes are distinct, differ from the receiver
  and are unattached, and it is always kept by \<open>RemoveCommand\<close>.
\<close>

theorem tree_ownership:
  "(c \<notin> set cmds \<longrightarrow>
      (\<exists>h'. AddCommand h c cmds = Done h'
         \<and> commands (h' c) = commands (h c) @ cmds
         \<and> (\<forall>x\<in>set cmds. parent (h' x) = Some c)))
   \<and> commands (RemoveCommand h c cmds c) = filter (\<lambda>x. x \<notin> set cmds) (commands (h c))
   \<and> (\<forall>x\<in>set (commands (h c)). x \<in> set cmds \<longrightarrow> parent (RemoveCommand h c cmds x) = None)
   \<and> (single_parent h \<and> distinct cmds \<and> c \<notin> set cmds \<and> (\<forall>x\<in>set cmds. parent (h x) = None)
        \<longrightarrow> (\<exists>h'. AddCommand h c cmds = Done h' \<and> single_parent h'))
   \<and> (single_parent h \<longrightarrow> single_parent (RemoveCommand h c cmds))"
proof (intro conjI impI)
  assume "c \<notin> set cmds"
  from AddCommand_summary [OF this, of h]
  show "\<exists>h'. AddCommand h c cmds = Done h'
         \<and> commands (h' c) = commands (h c) @ cmds
         \<and> (\<forall>x\<in>set cmds. parent (h' x) = Some c)"
    by auto
next
  show "commands (RemoveCommand h c cmds c) = filter (\<lambda>x. x \<notin> set cmds) (commands (h c))"
    using RemoveCommand_summary [of h c cmds] by simp
next
  show "\<forall>x\<in>set (commands (h c)). x \<in> set cmds \<longrightarrow> parent (RemoveCommand h c cmds x) = None"
    using RemoveCommand_summary [of h c cmds] by simp
next
  assume "single_parent h \<and> distinct cmds \<and> c \<notin> set cmds \<and> (\<forall>x\<in>set cmds. parent (h x) = None)"
  then show "\<exists>h'. AddCommand h c cmds = Done h' \<and> single_parent h'"
    using AddCommand_single_parent [of h cmds c] by blast
next
  assume "single_parent h"
  then show "single_parent (RemoveCommand h c cmds)" by (rule RemoveCommand_single_parent)
qed

theorem tree_ownership_witness:
  "(\<exists>h'. AddCommand tree_heap 0 [3, 4] = Done h' \<and> commands (h' 0) = [1, 2, 3, 4]
        \<and> parent (h' 3) = Some 0 \<and> parent (h' 4) = Some 0)
   \<and> (\<exists>h'. AddCommand tree_heap 0 [3, 4] = Done h' \<and> single_parent h')
   \<and> commands (RemoveCommand tree_heap 0 [1] 0) = [2]
   \<and> parent (RemoveCommand tree_heap 0 [1] 1) = None
   \<and> single_parent (RemoveCommand tree_heap 0 [1])"
proof -
  have A: "single_parent tree_heap \<and> distinct [3, 4 :: nat] \<and> 0 \<notin> set [3, 4 :: nat]
           \<and> (\<forall>x\<in>set [3, 4]. parent (tree_heap x) = None)"
    using tree_single_parent by (simp add: tree_heap_def fresh_heap_def Command0_def)
  have B: "commands (tree_heap 0) = [1, 2]"
    by (simp add: tree_heap_def fresh_heap_def Command0_def)
  from tree_ownership [of 0 "[3, 4]" tree_heap] A
  have "(\<exists>h'. AddCommand tree_heap 0 [3, 4] = Done h' \<and> commands (h' 0) = [1, 2, 3, 4]
        \<and> parent (h' 3) = Some 0 \<and> parent (h' 4) = Some 0)"
    and "\<exists>h'. AddCommand tree_heap 0 [3, 4] = Done h' \<and> single_parent h'"
    by (simp_all add: B)
  moreover from tree_ownership [of 0 "[1]" tree_heap] tree_single_parent
  have "commands (RemoveCommand tree_heap 0 [1] 0) = [2]"
    and "parent (RemoveCommand tree_heap 0 [1] 1) = None"
    and "single_parent (RemoveCommand tree_heap 0 [1])"
    by (simp_all add: B)
  ultimately show ?thesis by blast
qed

text \<open>
  The claim as stated fails: adding node 2 under node 0 and then under node 1 leaves it
  in both child lists, with its back-reference naming node 1 only.
\<close>

theorem single_parent_counterexample:
  "\<exists>h1 h2. AddCommand fresh_heap 0 [2] = Done h1 \<and> AddCommand h1 1 [2] = Done h2
     \<and> 2 \<in> set (commands (h2 0)) \<and> 2 \<in> set (commands (h2 1)) \<and> parent (h2 2) = Some 1"
  by (simp add: Let_def fresh_heap_def Command0_def)



section \<open>Properties of execution\<close>

lemma call_hooks_frame:
  "call_hooks slotE slotP fE fP s c args = (r, s') \<Longrightarrow>
   heap s' = heap s \<and> written s' = written s
   \<and> calls s' = calls s @ stage_calls slotE slotP fE fP c args"
  by (auto simp: call_hooks_def stage_calls_def split: option.splits prod.splits)

lemma call_hooks_error:
  "call_hooks slotE slotP fE fP s c args = (Some e, s') \<Longrightarrow>
   calls s' = calls s @ [Call slotE c args]"
  by (auto simp: call_hooks_def split: option.splits prod.splits)

lemma execute_parse_frame:
  "execute_parse Parse fuel s c args = Some (Done (r, s1, args1)) \<Longrightarrow>
   calls s1 = calls s \<and> world s1 = world s \<and> written s1 = written s"
  by (auto simp: execute_parse_def split: if_splits option.splits result.splits prod.splits)

lemma execute_resolved:
  "execute_parse Parse fuel s c args = Some (Done (None, s1, args1)) \<Longrightarrow>
   Find (heap s1) c args1 = (cmd, fargs, None) \<Longrightarrow>
   (case Args (heap s1 cmd) of None \<Rightarrow> None
    | Some v \<Rightarrow> v (CommandFields.truncate (heap s1 cmd)) fargs) = None \<Longrightarrow>
   execute Parse fuel s c args = execute_stages fuel s1 c cmd fargs"
  by (simp add: execute_def)

lemma stages_fail_ppre:
  "executePersistentPreRun s1 cmd fargs = (Some e, s2) \<Longrightarrow>
   execute_stages fuel s1 c cmd fargs = Some (Returned (Some e) s2)
   \<and> calls s2 = calls s1 @ [Call SlotPersistentPreRunE cmd fargs]"
  by (simp add: execute_stages_def) (simp add: executePersistentPreRun_def call_hooks_error)

lemma stages_fail_pre:
  "executePersistentPreRun s1 cmd fargs = (None, s2) \<Longrightarrow>
   executePreRun s2 cmd fargs = (Some e, s3) \<Longrightarrow>
   execute_stages fuel s1 c cmd fargs = Some (Returned (Some e) s3)
   \<and> calls s3 = calls s1
        @ stage_calls SlotPersistentPreRunE SlotPersistentPreRun
            (PersistentPreRunE (heap s1 cmd)) (PersistentPreRun (heap s1 cmd)) cmd fargs
        @ [Call SlotPreRunE cmd fargs]"
proof -
  assume A: "executePersistentPreRun s1 cmd fargs = (None, s2)"
    and B: "executePreRun s2 cmd fargs = (Some e, s3)"
  from A have "calls s2 = calls s1
        @ stage_calls SlotPersistentPreRunE SlotPersistentPreRun
            (PersistentPreRunE (heap s1 cmd)) (PersistentPreRun (heap s1 cmd)) cmd fargs"
    unfolding executePersistentPreRun_def by (simp add: call_hooks_frame)
  moreover from B have "calls s3 = calls s2 @ [Call SlotPreRunE cmd fargs]"
    unfolding executePreRun_def by (rule call_hooks_error)
  moreover have "execute_stages fuel s1 c cmd fargs = Some (Returned (Some e) s3)"
    using A B by (simp add: execute_stages_def)
  ultimately show ?thesis by simp
qed

lemma stages_fail_run:
  assumes A: "executePersistentPreRun s1 cmd fargs = (None, s2)"
    and B: "executePreRun s2 cmd fargs = (None, s3)"
    and C: "executeRun s3 cmd fargs = (Some e, s4)"
    and E: "ErrOrStderr fuel (heap s1) c = Some w1"
    and O: "OutOrStdout fuel (heap s1) c = Some w2"
  shows "\<exists>s5. execute_stages fuel s1 c cmd fargs = Some (Returned (Some e) s5)
     \<and> world s5 = world s4
     \<and> calls s5 = calls s1
        @ stage_calls SlotPersistentPreRunE SlotPersistentPreRun
            (PersistentPreRunE (heap s1 cmd)) (PersistentPreRun (heap s1 cmd)) cmd fargs
        @ stage_calls SlotPreRunE SlotPreRun (PreRunE (heap s1 cmd)) (PreRun (heap s1 cmd)) cmd fargs
        @ [Call SlotRunE cmd fargs]
     \<and> written s5 = written s1
        @ (if SilenceErrors (heap s1 c) then [] else [(w1, ErrorLine e)])
        @ (if SilenceUsage (heap s1 c) then [] else [(w2, UsageOf c)])"
proof -
  from A have F2: "heap s2 = heap s1" "written s2 = written s1"
    "calls s2 = calls s1
        @ stage_calls SlotPersistentPreRunE SlotPersistentPreRun
            (PersistentPreRunE (heap s1 cmd)) (PersistentPreRun (heap s1 cmd)) cmd fargs"
    unfolding executePersistentPreRun_def by (simp_all add: call_hooks_frame)
  from B have F3: "heap s3 = heap s2" "written s3 = written s2"
    "calls s3 = calls s2
        @ stage_calls SlotPreRunE SlotPreRun (PreRunE (heap s2 cmd)) (PreRun (heap s2 cmd)) cmd fargs"
    unfolding executePreRun_def by (simp_all add: call_hooks_frame)
  from C have F4: "heap s4 = heap s3" "written s4 = written s3"
    unfolding executeRun_def by (simp_all add: call_hooks_frame)
  from C have G4: "calls s4 = calls s3 @ [Call SlotRunE cmd fargs]"
    unfolding executeRun_def by (rule call_hooks_error)
  have H4: "heap s4 = heap s1" using F2 F3 F4 by simp
  show ?thesis
    using A B C E O H4 F2 F3 F4 G4
    by (simp add: execute_stages_def Fprintln_err_def Usage_def)
qed

text \<open>
  C7. Pre-lifecycle abort: when flag parsing is enabled and the parser fails on the
  merged effective flag set, \<open>execute\<close> returns the parser's error; when the
  validator of the resolved command rejects the remaining tokens, \<open>execute\<close> returns
  the validator's error. In both cases no callback has been invoked, the application
  state is untouched and nothing has been written.
\<close>

theorem pre_lifecycle_abort:
  "(\<not> DisableFlagParsing (heap s c)
      \<and> mergePersistentFlags fuel (heap s) c = Some (Done h1)
      \<and> Flags h1 c = (h2, fs) \<and> Parse fs args = (Some e, fs1)
     \<longrightarrow> (\<exists>s'. execute Parse fuel s c args = Some (Returned (Some e) s')
            \<and> calls s' = calls s \<and> world s' = world s \<and> written s' = written s))
   \<and> (execute_parse Parse fuel s c args = Some (Done (None, s1, args1))
      \<and> Find (heap s1) c args1 = (cmd, fargs, None)
      \<and> Args (heap s1 cmd) = Some v
      \<and> v (CommandFields.truncate (heap s1 cmd)) fargs = Some e'
     \<longrightarrow> execute Parse fuel s c args = Some (Returned (Some e') s1)
         \<and> calls s1 = calls s \<and> world s1 = world s \<and> written s1 = written s)"
proof -
  have P1: "\<exists>s'. execute Parse fuel s c args = Some (Returned (Some e) s')
            \<and> calls s' = calls s \<and> world s' = world s \<and> written s' = written s"
    if A: "\<not> DisableFlagParsing (heap s c)
      \<and> mergePersistentFlags fuel (heap s) c = Some (Done h1)
      \<and> Flags h1 c = (h2, fs) \<and> Parse fs args = (Some e, fs1)"
  proof -
    from A have "execute_parse Parse fuel s c args =
        Some (Done (Some e, s\<lparr>heap := h2(c := (h2 c)\<lparr>flags := Some fs1\<rparr>)\<rparr>, args))"
      by (simp add: execute_parse_def ParseFlags_def)
    then have "execute Parse fuel s c args =
        Some (Returned (Some e) (s\<lparr>heap := h2(c := (h2 c)\<lparr>flags := Some fs1\<rparr>)\<rparr>))"
      by (simp add: execute_def)
    then show ?thesis by simp
  qed
  have P2: "execute Parse fuel s c args = Some (Returned (Some e') s1)
         \<and> calls s1 = calls s \<and> world s1 = world s \<and> written s1 = written s"
    if B: "execute_parse Parse fuel s c args = Some (Done (None, s1, args1))
      \<and> Find (heap s1) c args1 = (cmd, fargs, None)
      \<and> Args (heap s1 cmd) = Some v
      \<and> v (CommandFields.truncate (heap s1 cmd)) fargs = Some e'"
  proof -
    from B have "execute Parse fuel s c args = Some (Returned (Some e') s1)"
      by (simp add: execute_def)
    moreover from B have "calls s1 = calls s \<and> world s1 = world s \<and> written s1 = written s"
      using execute_parse_frame by blast
    ultimately show ?thesis by simp
  qed
  from P1 P2 show ?thesis by blast
qed



text \<open>The definitions unfolded when an execution is evaluated on a concrete tree.\<close>

lemmas eval_defs = execute_def execute_parse_def ParseFlags_def merge_own_def merge_flag_def
  PersistentFlags_def LocalFlags_def Flags_def VisitAll_def NewFlagSet_def Lookup_def AddFlag_def
  sample_Parse_def execute_stages_def executePersistentPreRun_def executePreRun_def executeRun_def
  executePostRun_def executePersistentPostRun_def call_hooks_def log_hook_def log_hookE_def
  fresh_heap_def Command0_def init_state_def Name_def HasAlias_def ExactArgs_def
  CommandFields.truncate_def Fprintln_err_def Usage_def Let_def

theorem pre_lifecycle_abort_witness:
  "(\<exists>s'. execute sample_Parse 1 (init_state (greet_heap None None None) []) 0 [''--bogus'', ''greet'']
          = Some (Returned (Some (FlagError ''--bogus'')) s')
        \<and> calls s' = [] \<and> world s' = [] \<and> written s' = [])
   \<and> (\<exists>s'. execute sample_Parse 1 (init_state (greet_heap None None None) []) 0 [''greet'', ''extra'']
          = Some (Returned (Some (AcceptsExactly 0 1)) s')
        \<and> calls s' = [] \<and> world s' = [] \<and> written s' = [])"
proof -
  let ?s = "init_state (greet_heap None None None) []"
  have D: "\<not> DisableFlagParsing (heap ?s 0)"
    by (simp add: eval_defs greet_heap_def)
  obtain h1 where M: "mergePersistentFlags 1 (heap ?s) 0 = Some (Done h1)"
    and F: "flags (h1 0) = None"
    by (simp add: eval_defs greet_heap_def)
  obtain h2 fs where G: "Flags h1 0 = (h2, fs)" and fs: "formal fs = []"
    using F by (simp add: Flags_def NewFlagSet_def Let_def)
  obtain fs1 where P: "sample_Parse fs [''--bogus'', ''greet''] = (Some (FlagError ''--bogus''), fs1)"
    using fs by (simp add: sample_Parse_def)
  have A: "\<exists>s'. execute sample_Parse 1 ?s 0 [''--bogus'', ''greet'']
          = Some (Returned (Some (FlagError ''--bogus'')) s')
        \<and> calls s' = calls ?s \<and> world s' = world ?s \<and> written s' = written ?s"
    using pre_lifecycle_abort [where s = ?s and c = 0 and fuel = 1 and ?h1.0 = h1 and ?h2.0 = h2
        and fs = fs and Parse = sample_Parse and args = "[''--bogus'', ''greet'']"
        and e = "FlagError ''--bogus''" and ?fs1.0 = fs1] D M G P
    by blast
  obtain s1 where E: "execute_parse sample_Parse 1 ?s 0 [''greet'', ''extra'']
        = Some (Done (None, s1, [''greet'', ''extra'']))"
    and R: "Find (heap s1) 0 [''greet'', ''extra''] = (1, [''extra''], None)"
    and V: "Args (heap s1 1) = Some (ExactArgs 0)"
    by (simp add: eval_defs greet_heap_def)
  have W: "ExactArgs 0 (CommandFields.truncate (heap s1 1)) [''extra''] = Some (AcceptsExactly 0 1)"
    by (simp add: ExactArgs_def)
  have B: "execute sample_Parse 1 ?s 0 [''greet'', ''extra'']
          = Some (Returned (Some (AcceptsExactly 0 1)) s1)
         \<and> calls s1 = calls ?s \<and> world s1 = world ?s \<and> written s1 = written ?s"
    using pre_lifecycle_abort [where s = ?s and c = 0 and fuel = 1 and Parse = sample_Parse
        and args = "[''greet'', ''extra'']" and ?s1.0 = s1 and ?args1.0 = "[''greet'', ''extra'']"
        and cmd = 1 and fargs = "[''extra'']" and v = "ExactArgs 0" and e' = "AcceptsExactly 0 1"]
      E R V W
    by blast
  have I: "calls ?s = [] \<and> world ?s = [] \<and> written ?s = []"
    by (simp add: init_state_def)
  from A B I show ?thesis by metis
qed


text \<open>
  C1. Lifecycle short-circuiting, for a command resolved and validated by \<open>execute\<close>:
  when the persistent pre-run stage fails, \<open>execute\<close> returns its error and the only
  callback invoked is that stage's; when the pre-run stage fails, \<open>execute\<close> returns
  its error and the callbacks invoked are those of the persistent pre-run stage and
  then the failing one; when the run stage fails, \<open>execute\<close> returns its error and the
  callbacks invoked are those of the persistent pre-run and pre-run stages and then the
  failing one. In each case no callback of a later stage is invoked.
\<close>

theorem lifecycle_short_circuit:
  "execute_parse Parse fuel s c args = Some (Done (None, s1, args1))
   \<and> Find (heap s1) c args1 = (cmd, fargs, None)
   \<and> (case Args (heap s1 cmd) of None \<Rightarrow> None
       | Some v \<Rightarrow> v (CommandFields.truncate (heap s1 cmd)) fargs) = None
   \<longrightarrow>
     (executePersistentPreRun s1 cmd fargs = (Some e, s2) \<longrightarrow>
        execute Parse fuel s c args = Some (Returned (Some e) s2)
        \<and> calls s2 = calls s @ [Call SlotPersistentPreRunE cmd fargs])
   \<and> (executePersistentPreRun s1 cmd fargs = (None, s2)
        \<and> executePreRun s2 cmd fargs = (Some e, s3) \<longrightarrow>
        execute Parse fuel s c args = Some (Returned (Some e) s3)
        \<and> calls s3 = calls s
             @ stage_calls SlotPersistentPreRunE SlotPersistentPreRun
                 (PersistentPreRunE (heap s1 cmd)) (PersistentPreRun (heap s1 cmd)) cmd fargs
             @ [Call SlotPreRunE cmd fargs])
   \<and> (executePersistentPreRun s1 cmd fargs = (None, s2)
        \<and> executePreRun s2 cmd fargs = (None, s3)
        \<and> executeRun s3 cmd fargs = (Some e, s4)
        \<and> ErrOrStderr fuel (heap s1) c = Some w1
        \<and> OutOrStdout fuel (heap s1) c = Some w2 \<longrightarrow>
        (\<exists>s5. execute Parse fuel s c args = Some (Returned (Some e) s5)
           \<and> world s5 = world s4
           \<and> calls s5 = calls s
               @ stage_calls SlotPersistentPreRunE SlotPersistentPreRun
                   (PersistentPreRunE (heap s1 cmd)) (PersistentPreRun (heap s1 cmd)) cmd fargs
               @ stage_calls SlotPreRunE SlotPreRun
                   (PreRunE (heap s1 cmd)) (PreRun (heap s1 cmd)) cmd fargs
               @ [Call SlotRunE cmd fargs]))"
proof (rule impI)
  assume pre: "execute_parse Parse fuel s c args = Some (Done (None, s1, args1))
   \<and> Find (heap s1) c args1 = (cmd, fargs, None)
   \<and> (case Args (heap s1 cmd) of None \<Rightarrow> None
       | Some v \<Rightarrow> v (CommandFields.truncate (heap s1 cmd)) fargs) = None"
  then have X: "execute Parse fuel s c args = execute_stages fuel s1 c cmd fargs"
    using execute_resolved by blast
  from pre have K: "calls s1 = calls s" using execute_parse_frame by blast
  have P1: "execute Parse fuel s c args = Some (Returned (Some e) s2)
        \<and> calls s2 = calls s @ [Call SlotPersistentPreRunE cmd fargs]"
    if "executePersistentPreRun s1 cmd fargs = (Some e, s2)"
    using stages_fail_ppre [OF that, of fuel c] by (simp add: X K)
  have P2: "execute Parse fuel s c args = Some (Returned (Some e) s3)
        \<and> calls s3 = calls s
             @ stage_calls SlotPersistentPreRunE SlotPersistentPreRun
                 (PersistentPreRunE (heap s1 cmd)) (PersistentPreRun (heap s1 cmd)) cmd fargs
             @ [Call SlotPreRunE cmd fargs]"
    if "executePersistentPreRun s1 cmd fargs = (None, s2) \<and> executePreRun s2 cmd fargs = (Some e, s3)"
    using stages_fail_pre [of s1 cmd fargs s2 e s3 fuel c] that by (simp add: X K)
  have P3: "\<exists>s5. execute Parse fuel s c args = Some (Returned (Some e) s5)
           \<and> world s5 = world s4
           \<and> calls s5 = calls s
               @ stage_calls SlotPersistentPreRunE SlotPersistentPreRun
                   (PersistentPreRunE (heap s1 cmd)) (PersistentPreRun (heap s1 cmd)) cmd fargs
               @ stage_calls SlotPreRunE SlotPreRun
                   (PreRunE (heap s1 cmd)) (PreRun (heap s1 cmd)) cmd fargs
               @ [Call SlotRunE cmd fargs]"
    if "executePersistentPreRun s1 cmd fargs = (None, s2)
        \<and> executePreRun s2 cmd fargs = (None, s3)
        \<and> executeRun s3 cmd fargs = (Some e, s4)
        \<and> ErrOrStderr fuel (heap s1) c = Some w1
        \<and> OutOrStdout fuel (heap s1) c = Some w2"
    using stages_fail_run [of s1 cmd fargs s2 s3 e s4 fuel c w1 w2] that
    by (auto simp: X K)
  from P1 P2 P3 show "(executePersistentPreRun s1 cmd fargs = (Some e, s2) \<longrightarrow>
        execute Parse fuel s c args = Some (Returned (Some e) s2)
        \<and> calls s2 = calls s @ [Call SlotPersistentPreRunE cmd fargs])
   \<and> (executePersistentPreRun s1 cmd fargs = (None, s2)
        \<and> executePreRun s2 cmd fargs = (Some e, s3) \<longrightarrow>
        execute Parse fuel s c args = Some (Returned (Some e) s3)
        \<and> calls s3 = calls s
             @ stage_calls SlotPersistentPreRunE SlotPersistentPreRun
                 (PersistentPreRunE (heap s1 cmd)) (PersistentPreRun (heap s1 cmd)) cmd fargs
             @ [Call SlotPreRunE cmd fargs])
   \<and> (executePersistentPreRun s1 cmd fargs = (None, s2)
        \<and> executePreRun s2 cmd fargs = (None, s3)
        \<and> executeRun s3 cmd fargs = (Some e, s4)
        \<and> ErrOrStderr fuel (heap s1) c = Some w1
        \<and> OutOrStdout fuel (heap s1) c = Some w2 \<longrightarrow>
        (\<exists>s5. execute Parse fuel s c args = Some (Returned (Some e) s5)
           \<and> world s5 = world s4
           \<and> calls s5 = calls s
               @ stage_calls SlotPersistentPreRunE SlotPersistentPreRun
                   (PersistentPreRunE (heap s1 cmd)) (PersistentPreRun (heap s1 cmd)) cmd fargs
               @ stage_calls SlotPreRunE SlotPreRun
                   (PreRunE (heap s1 cmd)) (PreRun (heap s1 cmd)) cmd fargs
               @ [Call SlotRunE cmd fargs]))"
    by blast
qed


theorem lifecycle_short_circuit_witness:
  "(\<exists>s'. execute sample_Parse 1 (init_state (greet_heap (Some (HookError ''a'')) None None) []) 0 [''greet'']
          = Some (Returned (Some (HookError ''a'')) s')
        \<and> calls s' = [Call SlotPersistentPreRunE 1 []])
   \<and> (\<exists>s'. execute sample_Parse 1 (init_state (greet_heap None (Some (HookError ''b'')) None) []) 0 [''greet'']
          = Some (Returned (Some (HookError ''b'')) s')
        \<and> calls s' = [Call SlotPersistentPreRunE 1 [], Call SlotPreRunE 1 []])
   \<and> (\<exists>s'. execute sample_Parse 1 (init_state (greet_heap None None (Some (HookError ''c''))) []) 0 [''greet'']
          = Some (Returned (Some (HookError ''c'')) s')
        \<and> calls s' = [Call SlotPersistentPreRunE 1 [], Call SlotPreRunE 1 [], Call SlotRunE 1 []])"
proof -
  let ?a = "init_state (greet_heap (Some (HookError ''a'')) None None) []"
  define a1 where "a1 = (case execute_parse sample_Parse 1 ?a 0 [''greet''] of Some (Done (r, x, y)) \<Rightarrow> x)"
  define a2 where "a2 = snd (executePersistentPreRun a1 1 [])"
  have A1: "execute_parse sample_Parse 1 ?a 0 [''greet''] = Some (Done (None, a1, [''greet'']))
     \<and> Find (heap a1) 0 [''greet''] = (1, [], None)
     \<and> (case Args (heap a1 1) of None \<Rightarrow> None
         | Some v \<Rightarrow> v (CommandFields.truncate (heap a1 1)) []) = None"
    by (simp add: a1_def eval_defs greet_heap_def)
  have A2: "executePersistentPreRun a1 1 [] = (Some (HookError ''a''), a2)"
    by (simp add: a2_def a1_def eval_defs greet_heap_def)
  have A: "execute sample_Parse 1 ?a 0 [''greet''] = Some (Returned (Some (HookError ''a'')) a2)
      \<and> calls a2 = calls ?a @ [Call SlotPersistentPreRunE 1 []]"
    using lifecycle_short_circuit [where Parse = sample_Parse and fuel = 1 and s = ?a and c = 0
        and args = "[''greet'']" and ?s1.0 = a1 and ?args1.0 = "[''greet'']" and cmd = 1
        and fargs = "[]" and e = "HookError ''a''" and ?s2.0 = a2] A1 A2
    by blast
  let ?b = "init_state (greet_heap None (Some (HookError ''b'')) None) []"
  define b1 where "b1 = (case execute_parse sample_Parse 1 ?b 0 [''greet''] of Some (Done (r, x, y)) \<Rightarrow> x)"
  define b2 where "b2 = snd (executePersistentPreRun b1 1 [])"
  define b3 where "b3 = snd (executePreRun b2 1 [])"
  have B1: "execute_parse sample_Parse 1 ?b 0 [''greet''] = Some (Done (None, b1, [''greet'']))
     \<and> Find (heap b1) 0 [''greet''] = (1, [], None)
     \<and> (case Args (heap b1 1) of None \<Rightarrow> None
         | Some v \<Rightarrow> v (CommandFields.truncate (heap b1 1)) []) = None"
    by (simp add: b1_def eval_defs greet_heap_def)
  have B2: "executePersistentPreRun b1 1 [] = (None, b2)"
    by (simp add: b2_def b1_def eval_defs greet_heap_def)
  have B3: "executePreRun b2 1 [] = (Some (HookError ''b''), b3)"
    by (simp add: b3_def b2_def b1_def eval_defs greet_heap_def)
  have B4: "stage_calls SlotPersistentPreRunE SlotPersistentPreRun
                 (PersistentPreRunE (heap b1 1)) (PersistentPreRun (heap b1 1)) 1 []
            = [Call SlotPersistentPreRunE 1 []]"
    by (simp add: stage_calls_def b1_def eval_defs greet_heap_def)
  have B: "execute sample_Parse 1 ?b 0 [''greet''] = Some (Returned (Some (HookError ''b'')) b3)
      \<and> calls b3 = calls ?b
             @ stage_calls SlotPersistentPreRunE SlotPersistentPreRun
                 (PersistentPreRunE (heap b1 1)) (PersistentPreRun (heap b1 1)) 1 []
             @ [Call SlotPreRunE 1 []]"
    using lifecycle_short_circuit [where Parse = sample_Parse and fuel = 1 and s = ?b and c = 0
        and args = "[''greet'']" and ?s1.0 = b1 and ?args1.0 = "[''greet'']" and cmd = 1
        and fargs = "[]" and e = "HookError ''b''" and ?s2.0 = b2 and ?s3.0 = b3] B1 B2 B3
    by blast
  let ?c = "init_state (greet_heap None None (Some (HookError ''c''))) []"
  define c1 where "c1 = (case execute_parse sample_Parse 1 ?c 0 [''greet''] of Some (Done (r, x, y)) \<Rightarrow> x)"
  define c2 where "c2 = snd (executePersistentPreRun c1 1 [])"
  define c3 where "c3 = snd (executePreRun c2 1 [])"
  define c4 where "c4 = snd (executeRun c3 1 [])"
  have C1: "execute_parse sample_Parse 1 ?c 0 [''greet''] = Some (Done (None, c1, [''greet'']))
     \<and> Find (heap c1) 0 [''greet''] = (1, [], None)
     \<and> (case Args (heap c1 1) of None \<Rightarrow> None
         | Some v \<Rightarrow> v (CommandFields.truncate (heap c1 1)) []) = None"
    by (simp add: c1_def eval_defs greet_heap_def)
  have C2: "executePersistentPreRun c1 1 [] = (None, c2)"
    by (simp add: c2_def c1_def eval_defs greet_heap_def)
  have C3: "executePreRun c2 1 [] = (None, c3)"
    by (simp add: c3_def c2_def c1_def eval_defs greet_heap_def)
  have C4: "executeRun c3 1 [] = (Some (HookError ''c''), c4)"
    by (simp add: c4_def c3_def c2_def c1_def eval_defs greet_heap_def)
  have C5: "ErrOrStderr 1 (heap c1) 0 = Some Stderr \<and> OutOrStdout 1 (heap c1) 0 = Some Stdout"
    by (simp add: c1_def eval_defs greet_heap_def)
  have C6: "stage_calls SlotPersistentPreRunE SlotPersistentPreRun
                 (PersistentPreRunE (heap c1 1)) (PersistentPreRun (heap c1 1)) 1 []
            = [Call SlotPersistentPreRunE 1 []]
        \<and> stage_calls SlotPreRunE SlotPreRun (PreRunE (heap c1 1)) (PreRun (heap c1 1)) 1 []
            = [Call SlotPreRunE 1 []]"
    by (simp add: stage_calls_def c1_def eval_defs greet_heap_def)
  have C: "\<exists>s5. execute sample_Parse 1 ?c 0 [''greet''] = Some (Returned (Some (HookError ''c'')) s5)
           \<and> world s5 = world c4
           \<and> calls s5 = calls ?c
               @ stage_calls SlotPersistentPreRunE SlotPersistentPreRun
                   (PersistentPreRunE (heap c1 1)) (PersistentPreRun (heap c1 1)) 1 []
               @ stage_calls SlotPreRunE SlotPreRun
                   (PreRunE (heap c1 1)) (PreRun (heap c1 1)) 1 []
               @ [Call SlotRunE 1 []]"
    using lifecycle_short_circuit [where Parse = sample_Parse and fuel = 1 and s = ?c and c = 0
        and args = "[''greet'']" and ?s1.0 = c1 and ?args1.0 = "[''greet'']" and cmd = 1
        and fargs = "[]" and e = "HookError ''c''" and ?s2.0 = c2 and ?s3.0 = c3
        and ?s4.0 = c4 and ?w1.0 = Stderr and ?w2.0 = Stdout] C1 C2 C3 C4 C5
    by blast
  have I: "calls ?a = [] \<and> calls ?b = [] \<and> calls ?c = []"
    by (simp add: init_state_def)
  from A I have "\<exists>s'. execute sample_Parse 1 ?a 0 [''greet'']
          = Some (Returned (Some (HookError ''a'')) s')
        \<and> calls s' = [Call SlotPersistentPreRunE 1 []]"
    by simp
  moreover from B B4 I have "\<exists>s'. execute sample_Parse 1 ?b 0 [''greet'']
          = Some (Returned (Some (HookError ''b'')) s')
        \<and> calls s' = [Call SlotPersistentPreRunE 1 [], Call SlotPreRunE 1 []]"
    by simp
  moreover from C C6 I have "\<exists>s'. execute sample_Parse 1 ?c 0 [''greet'']
          = Some (Returned (Some (HookError ''c'')) s')
        \<and> calls s' = [Call SlotPersistentPreRunE 1 [], Call SlotPreRunE 1 [], Call SlotRunE 1 []]"
    by auto
  ultimately show ?thesis by blast
qed

lemma stages_no_run:
  assumes R: "Run (heap s1 cmd) = None" "RunE (heap s1 cmd) = None"
    and A: "executePersistentPreRun s1 cmd fargs = (None, s2)"
    and B: "executePreRun s2 cmd fargs = (None, s3)"
    and C: "executePostRun s3 cmd fargs = (None, s4)"
    and D: "executePersistentPostRun s4 cmd fargs = (None, s5)"
  shows "executeRun s3 cmd fargs = (None, s3)
     \<and> execute_stages fuel s1 c cmd fargs = Some (Returned None s5)
     \<and> calls s5 = calls s1
        @ stage_calls SlotPersistentPreRunE SlotPersistentPreRun
            (PersistentPreRunE (heap s1 cmd)) (PersistentPreRun (heap s1 cmd)) cmd fargs
        @ stage_calls SlotPreRunE SlotPreRun (PreRunE (heap s1 cmd)) (PreRun (heap s1 cmd)) cmd fargs
        @ stage_calls SlotPostRunE SlotPostRun (PostRunE (heap s1 cmd)) (PostRun (heap s1 cmd)) cmd fargs
        @ stage_calls SlotPersistentPostRunE SlotPersistentPostRun
            (PersistentPostRunE (heap s1 cmd)) (PersistentPostRun (heap s1 cmd)) cmd fargs"
proof -
  from A have F2: "heap s2 = heap s1"
    "calls s2 = calls s1
        @ stage_calls SlotPersistentPreRunE SlotPersistentPreRun
            (PersistentPreRunE (heap s1 cmd)) (PersistentPreRun (heap s1 cmd)) cmd fargs"
    unfolding executePersistentPreRun_def by (simp_all add: call_hooks_frame)
  from B have F3: "heap s3 = heap s2"
    "calls s3 = calls s2
        @ stage_calls SlotPreRunE SlotPreRun (PreRunE (heap s2 cmd)) (PreRun (heap s2 cmd)) cmd fargs"
    unfolding executePreRun_def by (simp_all add: call_hooks_frame)
  from C have F4: "heap s4 = heap s3"
    "calls s4 = calls s3
        @ stage_calls SlotPostRunE SlotPostRun (PostRunE (heap s3 cmd)) (PostRun (heap s3 cmd)) cmd fargs"
    unfolding executePostRun_def by (simp_all add: call_hooks_frame)
  from D have F5:
    "calls s5 = calls s4
        @ stage_calls SlotPersistentPostRunE SlotPersistentPostRun
            (PersistentPostRunE (heap s4 cmd)) (PersistentPostRun (heap s4 cmd)) cmd fargs"
    unfolding executePersistentPostRun_def by (simp_all add: call_hooks_frame)
  have N: "executeRun s3 cmd fargs = (None, s3)"
    using R F2 F3 by (simp add: executeRun_def call_hooks_def)
  have "execute_stages fuel s1 c cmd fargs = Some (Returned None s5)"
    using A B C D N by (simp add: execute_stages_def)
  then show ?thesis using N F2 F3 F4 F5 by simp
qed


text \<open>
  C10. Missing Run is a silent no-op: for a resolved and validated command with neither
  \<open>Run\<close> nor \<open>RunE\<close>, the run stage returns nil without invoking anything and
  without changing the state, and when the four other stages succeed \<open>execute\<close>
  returns nil after invoking exactly their callbacks, in the order persistent pre-run,
  pre-run, post-run, persistent post-run.
\<close>

theorem missing_run_is_noop:
  "execute_parse Parse fuel s c args = Some (Done (None, s1, args1))
   \<and> Find (heap s1) c args1 = (cmd, fargs, None)
   \<and> (case Args (heap s1 cmd) of None \<Rightarrow> None
       | Some v \<Rightarrow> v (CommandFields.truncate (heap s1 cmd)) fargs) = None
   \<and> Run (heap s1 cmd) = None \<and> RunE (heap s1 cmd) = None
   \<and> executePersistentPreRun s1 cmd fargs = (None, s2)
   \<and> executePreRun s2 cmd fargs = (None, s3)
   \<and> executePostRun s3 cmd fargs = (None, s4)
   \<and> executePersistentPostRun s4 cmd fargs = (None, s5)
   \<longrightarrow>
     executeRun s3 cmd fargs = (None, s3)
     \<and> execute Parse fuel s c args = Some (Returned None s5)
     \<and> calls s5 = calls s
        @ stage_calls SlotPersistentPreRunE SlotPersistentPreRun
            (PersistentPreRunE (heap s1 cmd)) (PersistentPreRun (heap s1 cmd)) cmd fargs
        @ stage_calls SlotPreRunE SlotPreRun (PreRunE (heap s1 cmd)) (PreRun (heap s1 cmd)) cmd fargs
        @ stage_calls SlotPostRunE SlotPostRun (PostRunE (heap s1 cmd)) (PostRun (heap s1 cmd)) cmd fargs
        @ stage_calls SlotPersistentPostRunE SlotPersistentPostRun
            (PersistentPostRunE (heap s1 cmd)) (PersistentPostRun (heap s1 cmd)) cmd fargs"
proof (rule impI)
  assume H: "execute_parse Parse fuel s c args = Some (Done (None, s1, args1))
   \<and> Find (heap s1) c args1 = (cmd, fargs, None)
   \<and> (case Args (heap s1 cmd) of None \<Rightarrow> None
       | Some v \<Rightarrow> v (CommandFields.truncate (heap s1 cmd)) fargs) = None
   \<and> Run (heap s1 cmd) = None \<and> RunE (heap s1 cmd) = None
   \<and> executePersistentPreRun s1 cmd fargs = (None, s2)
   \<and> executePreRun s2 cmd fargs = (None, s3)
   \<and> executePostRun s3 cmd fargs = (None, s4)
   \<and> executePersistentPostRun s4 cmd fargs = (None, s5)"
  then have X: "execute Parse fuel s c args = execute_stages fuel s1 c cmd fargs"
    using execute_resolved by blast
  from H have K: "calls s1 = calls s" using execute_parse_frame by blast
  from H have R: "Run (heap s1 cmd) = None" "RunE (heap s1 cmd) = None"
    and S: "executePersistentPreRun s1 cmd fargs = (None, s2)"
      "executePreRun s2 cmd fargs = (None, s3)"
      "executePostRun s3 cmd fargs = (None, s4)"
      "executePersistentPostRun s4 cmd fargs = (None, s5)"
    by simp_all
  from stages_no_run [OF R S, of fuel c]
  show "executeRun s3 cmd fargs = (None, s3)
     \<and> execute Parse fuel s c args = Some (Returned None s5)
     \<and> calls s5 = calls s
        @ stage_calls SlotPersistentPreRunE SlotPersistentPreRun
            (PersistentPreRunE (heap s1 cmd)) (PersistentPreRun (heap s1 cmd)) cmd fargs
        @ stage_calls SlotPreRunE SlotPreRun (PreRunE (heap s1 cmd)) (PreRun (heap s1 cmd)) cmd fargs
        @ stage_calls SlotPostRunE SlotPostRun (PostRunE (heap s1 cmd)) (PostRun (heap s1 cmd)) cmd fargs
        @ stage_calls SlotPersistentPostRunE SlotPersistentPostRun
            (PersistentPostRunE (heap s1 cmd)) (PersistentPostRun (heap s1 cmd)) cmd fargs"
    by (simp add: X K)
qed


theorem missing_run_is_noop_witness:
  "\<exists>s'. execute sample_Parse 1 (init_state norun_heap []) 0 [] = Some (Returned None s')
        \<and> world s' = [''pre'', ''post'']
        \<and> calls s' = [Call SlotPreRun 0 [], Call SlotPostRun 0 []]"
proof -
  let ?s = "init_state norun_heap []"
  define s1 where "s1 = (case execute_parse sample_Parse 1 ?s 0 [] of Some (Done (r, x, y)) \<Rightarrow> x)"
  define s2 where "s2 = snd (executePersistentPreRun s1 0 [])"
  define s3 where "s3 = snd (executePreRun s2 0 [])"
  define s4 where "s4 = snd (executePostRun s3 0 [])"
  define s5 where "s5 = snd (executePersistentPostRun s4 0 [])"
  note d = s5_def s4_def s3_def s2_def s1_def eval_defs norun_heap_def
  have H: "execute_parse sample_Parse 1 ?s 0 [] = Some (Done (None, s1, []))
     \<and> Find (heap s1) 0 [] = (0, [], None)
     \<and> (case Args (heap s1 0) of None \<Rightarrow> None
         | Some v \<Rightarrow> v (CommandFields.truncate (heap s1 0)) []) = None
     \<and> Run (heap s1 0) = None \<and> RunE (heap s1 0) = None"
    by (simp add: s1_def eval_defs norun_heap_def)
  have S2: "executePersistentPreRun s1 0 [] = (None, s2)"
    by (simp add: s2_def s1_def eval_defs norun_heap_def)
  have S3: "executePreRun s2 0 [] = (None, s3)"
    by (simp add: s3_def s2_def s1_def eval_defs norun_heap_def)
  have S4: "executePostRun s3 0 [] = (None, s4)"
    by (simp add: s4_def s3_def s2_def s1_def eval_defs norun_heap_def)
  have S5: "executePersistentPostRun s4 0 [] = (None, s5)"
    by (simp add: d)
  have W: "world s5 = [''pre'', ''post'']"
    by (simp add: d)
  have K: "calls ?s
        @ stage_calls SlotPersistentPreRunE SlotPersistentPreRun
            (PersistentPreRunE (heap s1 0)) (PersistentPreRun (heap s1 0)) 0 []
        @ stage_calls SlotPreRunE SlotPreRun (PreRunE (heap s1 0)) (PreRun (heap s1 0)) 0 []
        @ stage_calls SlotPostRunE SlotPostRun (PostRunE (heap s1 0)) (PostRun (heap s1 0)) 0 []
        @ stage_calls SlotPersistentPostRunE SlotPersistentPostRun
            (PersistentPostRunE (heap s1 0)) (PersistentPostRun (heap s1 0)) 0 []
       = [Call SlotPreRun 0 [], Call SlotPostRun 0 []]"
    by (simp add: stage_calls_def s1_def eval_defs norun_heap_def)
  have "execute sample_Parse 1 ?s 0 [] = Some (Returned None s5)
     \<and> calls s5 = calls ?s
        @ stage_calls SlotPersistentPreRunE SlotPersistentPreRun
            (PersistentPreRunE (heap s1 0)) (PersistentPreRun (heap s1 0)) 0 []
        @ stage_calls SlotPreRunE SlotPreRun (PreRunE (heap s1 0)) (PreRun (heap s1 0)) 0 []
        @ stage_calls SlotPostRunE SlotPostRun (PostRunE (heap s1 0)) (PostRun (heap s1 0)) 0 []
        @ stage_calls SlotPersistentPostRunE SlotPersistentPostRun
            (PersistentPostRunE (heap s1 0)) (PersistentPostRun (heap s1 0)) 0 []"
    using missing_run_is_noop [where Parse = sample_Parse and fuel = 1 and s = ?s and c = 0
        and args = "[]" and ?s1.0 = s1 and ?args1.0 = "[]" and cmd = 0 and fargs = "[]"
        and ?s2.0 = s2 and ?s3.0 = s3 and ?s4.0 = s4 and ?s5.0 = s5] H S2 S3 S4 S5
    by blast
  with W K show ?thesis by metis
qed

text \<open>
  C2. Run-failure side effects. The claim ties the report of a failing run stage to the
  resolved command: its silence flags and its streams. The code consults the receiver
  of \<open>execute\<close> instead. In \<open>silent_heap\<close> the resolved command \<open>sub\<close> silences
  errors and usage and has streams of its own, and its \<open>RunE\<close> fails: the error is
  returned, and the error text and the usage of the root are written all the same, to
  the standard streams that the root resolves to.
\<close>

theorem run_failure_report_uses_receiver:
  "\<exists>s'. execute sample_Parse 1 (init_state silent_heap []) 0 [''sub'']
          = Some (Returned (Some (HookError ''test error'')) s')
        \<and> Find silent_heap 0 [''sub''] = (1, [], None)
        \<and> SilenceErrors (silent_heap 1) \<and> SilenceUsage (silent_heap 1)
        \<and> errOutput (silent_heap 1) = Some (Writer 2) \<and> outputW (silent_heap 1) = Some (Writer 1)
        \<and> calls s' = [Call SlotRunE 1 []]
        \<and> written s' = [(Stderr, ErrorLine (HookError ''test error'')), (Stdout, UsageOf 0)]"
  by (simp add: eval_defs silent_heap_def)

text \<open>
  C4. Help flag and validation. The claim lets \<open>-h\<close> and \<open>--help\<close> bypass the
  positional validator. \<open>execute\<close> has no such case: with the help flag registered
  and a command that expects one argument, the tokens \<open>--help\<close> and \<open>-h\<close> parse,
  the validator is invoked on the empty remainder, and \<open>execute\<close> returns the
  validator's error before any callback.
\<close>

theorem help_flag_reaches_validator:
  "(\<exists>s'. execute sample_Parse 1 (init_state help_heap []) 0 [''--help'']
          = Some (Returned (Some (AcceptsExactly 1 0)) s') \<and> calls s' = [])
   \<and> (\<exists>s'. execute sample_Parse 1 (init_state help_heap []) 0 [''-h'']
          = Some (Returned (Some (AcceptsExactly 1 0)) s') \<and> calls s' = [])"
  by (simp add: eval_defs help_heap_def)

section \<open>Properties of flag merging\<close>




lemma Name_flags_update [simp]:
  "Name (r\<lparr>flags := a\<rparr>) = Name r" "Name (r\<lparr>pflags := b\<rparr>) = Name r"
  "Name (r\<lparr>lflags := d\<rparr>) = Name r"
  by (simp_all add: Name_def)





















end
